theory Spec2Isabelle
  imports Main "HOL-Library.AList"
begin

section \<open>Strings\<close>

text \<open>
  Strings are lists of code units. Case mapping is the ASCII one, which is what the DOM
  applies to element names; \<open>trim\<close> strips the white space and line terminators of
  JavaScript that fit in one code unit below 256. The \<open>toLowerCase\<close> of JavaScript also
  maps letters outside ASCII; on a string of ASCII characters it is the function below,
  and the convergence theorem, which follows a tag name through \<open>toLowerCase\<close> into a
  new element, is stated for tag names in ASCII.
\<close>

definition lower_char :: "char \<Rightarrow> char" where
  "lower_char c =
     (case map_of (zip ''ABCDEFGHIJKLMNOPQRSTUVWXYZ'' ''abcdefghijklmnopqrstuvwxyz'') c of
        None \<Rightarrow> c
      | Some d \<Rightarrow> d)"

definition upper_char :: "char \<Rightarrow> char" where
  "upper_char c =
     (case map_of (zip ''abcdefghijklmnopqrstuvwxyz'' ''ABCDEFGHIJKLMNOPQRSTUVWXYZ'') c of
        None \<Rightarrow> c
      | Some d \<Rightarrow> d)"

definition toLowerCase :: "string \<Rightarrow> string" where
  "toLowerCase s = map lower_char s"

definition toUpperCase :: "string \<Rightarrow> string" where
  "toUpperCase s = map upper_char s"

definition js_space :: "char \<Rightarrow> bool" where
  "js_space c =
     (c \<in> set [CHR 0x09, CHR 0x0A, CHR 0x0B, CHR 0x0C, CHR 0x0D, CHR 0x20, CHR 0xA0])"

definition trim :: "string \<Rightarrow> string" where
  "trim s = rev (dropWhile js_space (rev (dropWhile js_space s)))"

section \<open>JavaScript objects used as attribute maps\<close>

text \<open>
  \<open>vnode.attrs\<close> is a plain object \<open>{}\<close> whose own properties all hold strings. It is
  kept as the list of its own properties in insertion order. Three operations of the
  language do not behave like a finite map and are written out:
  \<^item> the assignment \<open>o[k] = v\<close> with \<open>k = "__proto__"\<close> and a string \<open>v\<close> runs the
    inherited setter, which ignores a value that is not an object, so no property is made;
  \<^item> \<open>k in o\<close> and the read \<open>o[k]\<close> also see the properties inherited from
    \<open>Object.prototype\<close>;
  \<^item> \<open>Object.keys\<close> lists the own properties whose names are array indices first, in
    ascending numeric order, then the others in insertion order.
\<close>

type_synonym jsobj = "(string \<times> string) list"

datatype jsval = Undefined | Str string | Inherited

definition object_prototype_names :: "string list" where
  "object_prototype_names =
     [''constructor'', ''hasOwnProperty'', ''isPrototypeOf'', ''propertyIsEnumerable'',
      ''toLocaleString'', ''toString'', ''valueOf'', ''__proto__'',
      ''__defineGetter__'', ''__defineSetter__'', ''__lookupGetter__'', ''__lookupSetter__'']"

definition obj_set :: "jsobj \<Rightarrow> string \<Rightarrow> string \<Rightarrow> jsobj" where
  "obj_set ob k v = (if k = ''__proto__'' then ob else AList.update k v ob)"

definition obj_get :: "jsobj \<Rightarrow> string \<Rightarrow> jsval" where
  "obj_get ob k =
     (case map_of ob k of
        Some v \<Rightarrow> Str v
      | None \<Rightarrow> if k \<in> set object_prototype_names then Inherited else Undefined)"

definition obj_in :: "string \<Rightarrow> jsobj \<Rightarrow> bool" where
  "obj_in k ob = (map_of ob k \<noteq> None \<or> k \<in> set object_prototype_names)"

definition truthy :: "jsval \<Rightarrow> bool" where
  "truthy v = (case v of Undefined \<Rightarrow> False | Str s \<Rightarrow> s \<noteq> [] | Inherited \<Rightarrow> True)"

definition digit_val :: "char \<Rightarrow> nat option" where
  "digit_val c = map_of (zip ''0123456789'' [0, 1, 2, 3, 4, 5, 6, 7, 8, 9]) c"

fun decimal :: "nat \<Rightarrow> string \<Rightarrow> nat option" where
  "decimal acc [] = Some acc"
| "decimal acc (c # cs) =
     (case digit_val c of None \<Rightarrow> None | Some d \<Rightarrow> decimal (10 * acc + d) cs)"

definition array_index :: "string \<Rightarrow> nat option" where
  "array_index s =
     (if s = [] \<or> (hd s = CHR ''0'' \<and> tl s \<noteq> []) then None
      else case decimal 0 s of
             None \<Rightarrow> None
           | Some n \<Rightarrow> if n < 4294967295 then Some n else None)"

definition index_rank :: "string \<times> string \<Rightarrow> nat" where
  "index_rank p = (case array_index (fst p) of None \<Rightarrow> 0 | Some n \<Rightarrow> n)"

definition obj_entries :: "jsobj \<Rightarrow> (string \<times> string) list" where
  "obj_entries ob =
     sort_key index_rank (filter (\<lambda>p. array_index (fst p) \<noteq> None) ob)
     @ filter (\<lambda>p. array_index (fst p) = None) ob"

definition obj_keys :: "jsobj \<Rightarrow> string list" where
  "obj_keys ob = map fst (obj_entries ob)"

section \<open>The live document tree\<close>

text \<open>
  A live node is a text node, an element, or a node of another type (a comment, say),
  which carries only its character data. An element has its \<open>tagName\<close> as the DOM reports
  it (upper case for an HTML element), its attribute list, the two properties the
  reconciler writes (\<open>value\<close> and \<open>checked\<close>, unset until written) and the flag that it is
  \<open>document.activeElement\<close>. The model covers elements of the HTML namespace in an HTML
  document, with attribute names in the form the document stores them. \<open>value_prop\<close>
  and \<open>checked_prop\<close> hold what was last assigned to \<open>el.value\<close> and \<open>el.checked\<close>. A
  write of \<open>value\<close>, \<open>checked\<close> or \<open>textContent\<close> on a node is taken to succeed.
\<close>

record eprops =
  tagName :: string
  attributes :: "(string \<times> string) list"
  value_prop :: "string option"
  checked_prop :: "bool option"
  activeElement :: bool

datatype dnode =
    DText string
  | DOther string
  | DElement eprops "dnode list"

datatype error = TypeError | InvalidCharacterError | HierarchyRequestError

datatype mutation =
    RemoveAttribute string
  | SetAttribute string string
  | SetValue string
  | SetChecked bool
  | SetTextContent string
  | RemoveChild nat
  | AppendChild
  | ReplaceChild
  | SetInnerHTML string

text \<open>
  What the platform decides and the reconciler only calls: the HTML fragment parser
  (given the \<open>tagName\<close> of the context element and the markup) and the name checks of
  \<open>createElement\<close> and \<open>setAttribute\<close>, which raise \<open>InvalidCharacterError\<close>.
\<close>

record platform =
  parse_fragment :: "string \<Rightarrow> string \<Rightarrow> dnode list"
  valid_element_name :: "string \<Rightarrow> bool"
  valid_attribute_name :: "string \<Rightarrow> bool"

definition childNodes :: "dnode \<Rightarrow> dnode list" where
  "childNodes n = (case n of DElement p cs \<Rightarrow> cs | _ \<Rightarrow> [])"

section \<open>Virtual nodes\<close>

datatype vnode =
    VText string
  | VElement string jsobj "vnode list"
  | VFragment "vnode list"

datatype vtype = TypeText | TypeElement | TypeFragment

definition vnode_type :: "vnode \<Rightarrow> vtype" where
  "vnode_type v =
     (case v of VText s \<Rightarrow> TypeText | VElement t a cs \<Rightarrow> TypeElement | VFragment cs \<Rightarrow> TypeFragment)"

definition vnode_tag :: "vnode \<Rightarrow> string option" where
  "vnode_tag v = (case v of VElement t a cs \<Rightarrow> Some t | _ \<Rightarrow> None)"

definition vnode_key :: "vnode \<Rightarrow> jsval" where
  "vnode_key v = (case v of VElement t a cs \<Rightarrow> obj_get a ''key'' | _ \<Rightarrow> Undefined)"

definition push_vnode :: "vnode list \<Rightarrow> vnode option \<Rightarrow> vnode list" where
  "push_vnode acc v = (case v of None \<Rightarrow> acc | Some x \<Rightarrow> acc @ [x])"

fun createVNode :: "dnode \<Rightarrow> vnode option" where
  "createVNode (DText s) = Some (VText s)"
| "createVNode (DOther s) = None"
| "createVNode (DElement p cs) =
     Some (VElement (toLowerCase (tagName p))
             (foldl (\<lambda>ob a. obj_set ob (fst a) (snd a)) [] (attributes p))
             (foldl (\<lambda>acc child. push_vnode acc (createVNode child)) [] cs))"

definition parseHTML :: "platform \<Rightarrow> string \<Rightarrow> vnode" where
  "parseHTML E html =
     (let children = foldl (\<lambda>acc child. push_vnode acc (createVNode child)) []
                       (parse_fragment E ''TEMPLATE'' (trim html))
      in if length children = 1 then hd children else VFragment children)"

definition sameVNode :: "vnode option \<Rightarrow> vnode option \<Rightarrow> bool" where
  "sameVNode a b =
     (case (a, b) of
        (Some x, Some y) \<Rightarrow>
          if vnode_type x \<noteq> vnode_type y then False
          else if vnode_type x = TypeText then True
          else if vnode_tag x \<noteq> vnode_tag y then False
          else let aKey = vnode_key x; bKey = vnode_key y
               in if truthy aKey \<or> truthy bKey then aKey = bKey else True
      | _ \<Rightarrow> False)"

section \<open>Operations of the live tree\<close>

text \<open>
  \<open>el\<close> may be \<open>undefined\<close> (\<open>None\<close>): \<open>parent.childNodes[i]\<close> past the end. A method
  that the node's type does not have is \<open>undefined\<close>, and calling it raises \<open>TypeError\<close>;
  so does reading or writing a property of \<open>undefined\<close>.

  On an element of the HTML namespace \<open>setAttribute\<close> and \<open>removeAttribute\<close> put the
  name in ASCII lower case before they use it; on other elements they use it as given.
  The operations below use the name as given. That is what the DOM does for a name in
  lower case, as the names of the attributes of an HTML element are, and the keys of a
  vnode made from one; it is not for a name with an upper-case letter, such as the
  \<open>viewBox\<close> of an \<open>svg\<close> element. The convergence theorem, which compares the
  attributes of an element afterwards with those of the new markup, is therefore stated
  for attribute names in lower case.
\<close>

definition get_tagName :: "dnode option \<Rightarrow> error + string option" where
  "get_tagName el =
     (case el of
        None \<Rightarrow> Inl TypeError
      | Some (DElement p cs) \<Rightarrow> Inr (Some (tagName p))
      | Some _ \<Rightarrow> Inr None)"

definition is_activeElement :: "dnode option \<Rightarrow> bool" where
  "is_activeElement el = (case el of Some (DElement p cs) \<Rightarrow> activeElement p | _ \<Rightarrow> False)"

definition removeAttribute :: "dnode option \<Rightarrow> string \<Rightarrow> error + dnode option" where
  "removeAttribute el k =
     (case el of
        Some (DElement p cs) \<Rightarrow>
          Inr (Some (DElement (p\<lparr>attributes := AList.delete k (attributes p)\<rparr>) cs))
      | _ \<Rightarrow> Inl TypeError)"

definition setAttribute :: "platform \<Rightarrow> dnode option \<Rightarrow> string \<Rightarrow> string \<Rightarrow> error + dnode option" where
  "setAttribute E el k v =
     (case el of
        Some (DElement p cs) \<Rightarrow>
          if valid_attribute_name E k
          then Inr (Some (DElement (p\<lparr>attributes := AList.update k v (attributes p)\<rparr>) cs))
          else Inl InvalidCharacterError
      | _ \<Rightarrow> Inl TypeError)"

definition set_value :: "dnode option \<Rightarrow> string \<Rightarrow> error + dnode option" where
  "set_value el v =
     (case el of
        None \<Rightarrow> Inl TypeError
      | Some (DElement p cs) \<Rightarrow> Inr (Some (DElement (p\<lparr>value_prop := Some v\<rparr>) cs))
      | Some n \<Rightarrow> Inr (Some n))"

definition set_checked :: "dnode option \<Rightarrow> bool \<Rightarrow> error + dnode option" where
  "set_checked el b =
     (case el of
        None \<Rightarrow> Inl TypeError
      | Some (DElement p cs) \<Rightarrow> Inr (Some (DElement (p\<lparr>checked_prop := Some b\<rparr>) cs))
      | Some n \<Rightarrow> Inr (Some n))"

definition set_textContent :: "dnode option \<Rightarrow> string \<Rightarrow> error + dnode option" where
  "set_textContent el v =
     (case el of
        None \<Rightarrow> Inl TypeError
      | Some (DText s) \<Rightarrow> Inr (Some (DText v))
      | Some (DOther s) \<Rightarrow> Inr (Some (DOther v))
      | Some (DElement p cs) \<Rightarrow> Inr (Some (DElement p (if v = [] then [] else [DText v]))))"

definition childNodes_at :: "dnode option \<Rightarrow> nat \<Rightarrow> error + dnode option" where
  "childNodes_at parent i =
     (case parent of
        None \<Rightarrow> Inl TypeError
      | Some n \<Rightarrow> Inr (if i < length (childNodes n) then Some (childNodes n ! i) else None))"

text \<open>
  \<open>splice n i ns\<close> puts the nodes \<open>ns\<close> in the place of the child at index \<open>i\<close>:
  \<open>replaceChild\<close> with \<open>ns\<close> the new node (the children of a document fragment),
  \<open>removeChild\<close> with \<open>ns\<close> empty.
\<close>

definition splice :: "dnode \<Rightarrow> nat \<Rightarrow> dnode list \<Rightarrow> dnode" where
  "splice n i ns =
     (case n of DElement p cs \<Rightarrow> DElement p (take i cs @ ns @ drop (Suc i) cs) | _ \<Rightarrow> n)"

definition appendChild :: "dnode option \<Rightarrow> dnode list \<Rightarrow> error + dnode option" where
  "appendChild parent ns =
     (case parent of
        None \<Rightarrow> Inl TypeError
      | Some (DElement p cs) \<Rightarrow> Inr (Some (DElement p (cs @ ns)))
      | Some _ \<Rightarrow> Inl HierarchyRequestError)"

definition set_innerHTML :: "platform \<Rightarrow> dnode \<Rightarrow> string \<Rightarrow> dnode" where
  "set_innerHTML E container html =
     (case container of
        DElement p cs \<Rightarrow> DElement p (parse_fragment E (tagName p) html)
      | _ \<Rightarrow> container)"

section \<open>Attribute reconciliation\<close>

fun forEach :: "('a \<Rightarrow> 's \<Rightarrow> error + 's) \<Rightarrow> 'a list \<Rightarrow> 's \<Rightarrow> error + 's" where
  "forEach f [] s = Inr s"
| "forEach f (x # xs) s = (case f x s of Inl e \<Rightarrow> Inl e | Inr s' \<Rightarrow> forEach f xs s')"

text \<open>The body of the first loop of \<open>updateAttributes\<close>, on the element and the log.\<close>

definition remove_old :: "jsobj \<Rightarrow> string \<Rightarrow> dnode option \<times> mutation list
    \<Rightarrow> error + dnode option \<times> mutation list" where
  "remove_old newAttrs key st =
     (if \<not> obj_in key newAttrs
      then case removeAttribute (fst st) key of
             Inl e \<Rightarrow> Inl e
           | Inr el \<Rightarrow> Inr (el, snd st @ [RemoveAttribute key])
      else Inr st)"

text \<open>
  The body of the second loop. \<open>newAttrs[key]\<close> is the string stored under the own
  property \<open>key\<close>, so the loop runs over the entries.
\<close>

definition write_new :: "platform \<Rightarrow> jsobj \<Rightarrow> string \<times> string \<Rightarrow> dnode option \<times> mutation list
    \<Rightarrow> error + dnode option \<times> mutation list" where
  "write_new E oldAttrs entry st =
     (let key = fst entry; newValue = snd entry; oldValue = obj_get oldAttrs key;
          el = fst st; log = snd st
      in if Str newValue \<noteq> oldValue then
           (if key = ''value'' then
              (case get_tagName el of
                 Inl e \<Rightarrow> Inl e
               | Inr t \<Rightarrow>
                   (if t = Some ''INPUT'' then
                      (if \<not> is_activeElement el
                       then (case set_value el newValue of
                               Inl e \<Rightarrow> Inl e
                             | Inr el' \<Rightarrow> Inr (el', log @ [SetValue newValue]))
                       else Inr st)
                    else (case setAttribute E el key newValue of
                            Inl e \<Rightarrow> Inl e
                          | Inr el' \<Rightarrow> Inr (el', log @ [SetAttribute key newValue]))))
            else if key = ''checked'' then
              (case set_checked el (newValue = ''true'' \<or> newValue = ''checked'') of
                 Inl e \<Rightarrow> Inl e
               | Inr el' \<Rightarrow>
                   Inr (el', log @ [SetChecked (newValue = ''true'' \<or> newValue = ''checked'')]))
            else (case setAttribute E el key newValue of
                    Inl e \<Rightarrow> Inl e
                  | Inr el' \<Rightarrow> Inr (el', log @ [SetAttribute key newValue])))
         else Inr st)"

definition updateAttributes :: "platform \<Rightarrow> dnode option \<Rightarrow> jsobj \<Rightarrow> jsobj
    \<Rightarrow> error + dnode option \<times> mutation list" where
  "updateAttributes E el oldAttrs newAttrs =
     (case forEach (remove_old newAttrs) (obj_keys oldAttrs) (el, []) of
        Inl e \<Rightarrow> Inl e
      | Inr st \<Rightarrow> forEach (write_new E oldAttrs) (obj_entries newAttrs) st)"

section \<open>Building live nodes\<close>

text \<open>
  The result is the list of nodes that an insertion of the created node adds: the node
  itself, or the children of the document fragment made for a \<open>fragment\<close> vnode.
  \<open>document.createElement\<close> puts the name in lower case and \<open>tagName\<close> reports it in
  upper case, which for the ASCII case mapping is the upper case of the name given.
\<close>

definition create_attr :: "platform \<Rightarrow> string \<times> string \<Rightarrow> eprops \<Rightarrow> error + eprops" where
  "create_attr E entry p =
     (if fst entry = ''checked''
      then Inr (p\<lparr>checked_prop := Some (snd entry = ''true'' \<or> snd entry = ''checked'')\<rparr>)
      else if valid_attribute_name E (fst entry)
      then Inr (p\<lparr>attributes := AList.update (fst entry) (snd entry) (attributes p)\<rparr>)
      else Inl InvalidCharacterError)"

definition createElement :: "platform \<Rightarrow> string \<Rightarrow> error + eprops" where
  "createElement E tag =
     (if valid_element_name E tag
      then Inr \<lparr>tagName = toUpperCase tag, attributes = [], value_prop = None,
                checked_prop = None, activeElement = False\<rparr>
      else Inl InvalidCharacterError)"

fun createElementFromVNode :: "platform \<Rightarrow> vnode \<Rightarrow> error + dnode list"
  and create_children :: "platform \<Rightarrow> vnode list \<Rightarrow> error + dnode list" where
  "createElementFromVNode E (VText v) = Inr [DText v]"
| "createElementFromVNode E (VFragment cs) = create_children E cs"
| "createElementFromVNode E (VElement tag attrs cs) =
     (case createElement E tag of
        Inl e \<Rightarrow> Inl e
      | Inr p0 \<Rightarrow>
          (case forEach (create_attr E) (obj_entries attrs) p0 of
             Inl e \<Rightarrow> Inl e
           | Inr p \<Rightarrow>
               (case create_children E cs of
                  Inl e \<Rightarrow> Inl e
                | Inr ns \<Rightarrow> Inr [DElement p ns])))"
| "create_children E [] = Inr []"
| "create_children E (c # cs) =
     (case createElementFromVNode E c of
        Inl e \<Rightarrow> Inl e
      | Inr ns \<Rightarrow> (case create_children E cs of Inl e \<Rightarrow> Inl e | Inr ms \<Rightarrow> Inr (ns @ ms)))"

section \<open>Patching\<close>

definition slot :: "dnode option \<Rightarrow> dnode list" where
  "slot el = (case el of None \<Rightarrow> [] | Some n \<Rightarrow> [n])"

definition splice_opt :: "dnode option \<Rightarrow> nat \<Rightarrow> dnode list \<Rightarrow> dnode option" where
  "splice_opt parent i ns = map_option (\<lambda>n. splice n i ns) parent"

text \<open>
  \<open>patch\<close> is given a node that sits in a child list (\<open>container.firstChild\<close> or
  \<open>parent.childNodes[i]\<close>) or \<open>undefined\<close>, and returns the nodes that stand in its place
  afterwards. \<open>patchChildren_loop E parent i olds news\<close> is the \<open>for\<close> loop of
  \<open>patchChildren\<close> from index \<open>i\<close> on, \<open>olds\<close> and \<open>news\<close> being what is left of
  \<open>oldChildren\<close> and \<open>newChildren\<close> from that index.
\<close>

fun patch :: "platform \<Rightarrow> dnode option \<Rightarrow> vnode option \<Rightarrow> vnode
      \<Rightarrow> error + dnode list \<times> mutation list"
  and patchChildren :: "platform \<Rightarrow> dnode option \<Rightarrow> vnode list \<Rightarrow> vnode list
      \<Rightarrow> error + dnode option \<times> mutation list"
  and patchChildren_loop :: "platform \<Rightarrow> dnode option \<Rightarrow> nat \<Rightarrow> vnode list \<Rightarrow> vnode list
      \<Rightarrow> error + dnode option \<times> mutation list" where
  "patch E el oldVNode newVNode =
     (if \<not> sameVNode oldVNode (Some newVNode) then
        case createElementFromVNode E newVNode of
          Inl e \<Rightarrow> Inl e
        | Inr newEl \<Rightarrow> (case el of None \<Rightarrow> Inl TypeError | Some n \<Rightarrow> Inr (newEl, [ReplaceChild]))
      else
        case (oldVNode, newVNode) of
          (Some (VText oldValue), VText newValue) \<Rightarrow>
            if oldValue \<noteq> newValue
            then case set_textContent el newValue of
                   Inl e \<Rightarrow> Inl e
                 | Inr el' \<Rightarrow> Inr (slot el', [SetTextContent newValue])
            else Inr (slot el, [])
        | (Some (VElement oldTag oldAttrs oldChildren), VElement newTag newAttrs newChildren) \<Rightarrow>
            (case updateAttributes E el oldAttrs newAttrs of
               Inl e \<Rightarrow> Inl e
             | Inr (el1, log1) \<Rightarrow>
                 (case patchChildren E el1 oldChildren newChildren of
                    Inl e \<Rightarrow> Inl e
                  | Inr (el2, log2) \<Rightarrow> Inr (slot el2, log1 @ log2)))
        | _ \<Rightarrow> Inr (slot el, []))"
| "patchChildren E parent oldChildren newChildren =
     patchChildren_loop E parent 0 oldChildren newChildren"
| "patchChildren_loop E parent i [] [] = Inr (parent, [])"
| "patchChildren_loop E parent i (oldVNode # olds) [] =
     (case childNodes_at parent i of
        Inl e \<Rightarrow> Inl e
      | Inr None \<Rightarrow> patchChildren_loop E parent (Suc i) olds []
      | Inr (Some childEl) \<Rightarrow>
          (case patchChildren_loop E (splice_opt parent i []) (Suc i) olds [] of
             Inl e \<Rightarrow> Inl e
           | Inr (parent', log) \<Rightarrow> Inr (parent', RemoveChild i # log)))"
| "patchChildren_loop E parent i [] (newVNode # news) =
     (case childNodes_at parent i of
        Inl e \<Rightarrow> Inl e
      | Inr childEl \<Rightarrow>
          (case createElementFromVNode E newVNode of
             Inl e \<Rightarrow> Inl e
           | Inr newEl \<Rightarrow>
               (case appendChild parent newEl of
                  Inl e \<Rightarrow> Inl e
                | Inr parent1 \<Rightarrow>
                    (case patchChildren_loop E parent1 (Suc i) [] news of
                       Inl e \<Rightarrow> Inl e
                     | Inr (parent', log) \<Rightarrow> Inr (parent', AppendChild # log)))))"
| "patchChildren_loop E parent i (oldVNode # olds) (newVNode # news) =
     (case childNodes_at parent i of
        Inl e \<Rightarrow> Inl e
      | Inr childEl \<Rightarrow>
          (case patch E childEl (Some oldVNode) newVNode of
             Inl e \<Rightarrow> Inl e
           | Inr (nodes, log1) \<Rightarrow>
               (case patchChildren_loop E (splice_opt parent i nodes) (Suc i) olds news of
                  Inl e \<Rightarrow> Inl e
                | Inr (parent', log2) \<Rightarrow> Inr (parent', log1 @ log2))))"

section \<open>The entry point\<close>

text \<open>
  \<open>diff_try\<close> is the body of the \<open>try\<close> block, \<open>diff\<close> adds the \<open>catch\<close>. The previous
  markup may be absent (\<open>None\<close> for \<open>null\<close> or \<open>undefined\<close>); the empty string is falsy
  as well. A run that ends in the \<open>catch\<close> reports the fallback's write only: what the
  \<open>try\<close> block wrote before the exception lies in the container's child list, which the
  fallback replaces.
\<close>

definition node_or :: "dnode \<Rightarrow> dnode option \<Rightarrow> dnode" where
  "node_or d el = (case el of None \<Rightarrow> d | Some n \<Rightarrow> n)"

definition diff_try :: "platform \<Rightarrow> dnode \<Rightarrow> string option \<Rightarrow> string
    \<Rightarrow> error + dnode \<times> mutation list" where
  "diff_try E container oldHTML newHTML =
     (let oldVNode = (case oldHTML of
                        None \<Rightarrow> None
                      | Some h \<Rightarrow> if h = [] then None else Some (parseHTML E h));
          newVNode = parseHTML E newHTML
      in if oldVNode = None \<or> length (childNodes container) = 0
         then Inr (set_innerHTML E container newHTML, [SetInnerHTML newHTML])
         else (case childNodes container of
                 [] \<Rightarrow> Inl TypeError
               | firstChild # rest \<Rightarrow>
                   (let currentVNode = createVNode firstChild
                    in if length (childNodes container) > 0
                       then (case patch E (Some firstChild) currentVNode newVNode of
                               Inl e \<Rightarrow> Inl e
                             | Inr (nodes, log) \<Rightarrow> Inr (splice container 0 nodes, log))
                       else (case createElementFromVNode E newVNode of
                               Inl e \<Rightarrow> Inl e
                             | Inr newEl \<Rightarrow>
                                 (case appendChild (Some container) newEl of
                                    Inl e \<Rightarrow> Inl e
                                  | Inr c \<Rightarrow> Inr (node_or container c, [AppendChild]))))))"

definition diff :: "platform \<Rightarrow> dnode \<Rightarrow> string option \<Rightarrow> string
    \<Rightarrow> error + dnode \<times> mutation list" where
  "diff E container oldHTML newHTML =
     (case diff_try E container oldHTML newHTML of
        Inr r \<Rightarrow> Inr r
      | Inl e \<Rightarrow> Inr (set_innerHTML E container newHTML, [SetInnerHTML newHTML]))"

section \<open>Predicates used in the statements\<close>

text \<open>An attribute map carries a usable \<open>key\<close>: the property is present and not empty.\<close>

definition nonempty_key :: "jsobj \<Rightarrow> bool" where
  "nonempty_key a = (case map_of a ''key'' of None \<Rightarrow> False | Some v \<Rightarrow> v \<noteq> [])"

text \<open>A live node that is neither a text node nor an element.\<close>

definition is_other :: "dnode \<Rightarrow> bool" where
  "is_other n = (case n of DOther s \<Rightarrow> True | _ \<Rightarrow> False)"

section \<open>Sample inputs\<close>

text \<open>
  An element as the HTML parser makes it: no property written, not focused. The sample
  parser is the HTML parser on the few markup strings used below, which parse to the same
  nodes in a \<open>template\<close> and in a \<open>div\<close>.
\<close>

definition element :: "string \<Rightarrow> (string \<times> string) list \<Rightarrow> dnode list \<Rightarrow> dnode" where
  "element t a cs =
     DElement \<lparr>tagName = t, attributes = a, value_prop = None, checked_prop = None,
               activeElement = False\<rparr> cs"

definition sample_parse :: "string \<Rightarrow> string \<Rightarrow> dnode list" where
  "sample_parse context markup =
     (case map_of
        [(''<ul><li>a</li><li>b</li></ul>'',
            [element ''UL'' [] [element ''LI'' [] [DText ''a''], element ''LI'' [] [DText ''b'']]]),
         (''<ul></ul>'', [element ''UL'' [] []]),
         (''<ul><li>c</li></ul>'', [element ''UL'' [] [element ''LI'' [] [DText ''c'']]]),
         (''<input type=text value=a>'',
            [element ''INPUT'' [(''type'', ''text''), (''value'', ''a'')] []]),
         (''<input type=text value=b>'',
            [element ''INPUT'' [(''type'', ''text''), (''value'', ''b'')] []]),
         (''<p>a</p><p>b</p>'', [element ''P'' [] [DText ''a''], element ''P'' [] [DText ''b'']]),
         (''<div><!--c--><p class=a>x</p></div>'',
            [element ''DIV'' [] [DOther ''c'', element ''P'' [(''class'', ''a'')] [DText ''x'']]]),
         (''<div><p>x</p></div>'', [element ''DIV'' [] [element ''P'' [] [DText ''x'']]])]
        markup of
        None \<Rightarrow> []
      | Some ns \<Rightarrow> ns)"

definition sample_platform :: platform where
  "sample_platform =
     \<lparr>parse_fragment = sample_parse,
      valid_element_name = (\<lambda>s. s \<noteq> []),
      valid_attribute_name = (\<lambda>s. s \<noteq> [])\<rparr>"

text \<open>A text input that holds the focus, in which the user has typed.\<close>

definition focused_input :: dnode where
  "focused_input =
     DElement \<lparr>tagName = ''INPUT'', attributes = [(''type'', ''text''), (''value'', ''a'')],
               value_prop = Some ''typed'', checked_prop = None, activeElement = True\<rparr> []"

section \<open>Predicates for convergence\<close>









text \<open>A live subtree of text nodes and elements only.\<close>

fun no_other :: "dnode \<Rightarrow> bool" where
  "no_other (DText s) = True"
| "no_other (DOther s) = False"
| "no_other (DElement p cs) = list_all no_other cs"

section \<open>The same-node test\<close>

lemma key_not_inherited: "''key'' \<notin> set object_prototype_names"
  by (simp add: object_prototype_names_def)

lemma obj_get_key:
  "obj_get a ''key'' = (case map_of a ''key'' of None \<Rightarrow> Undefined | Some v \<Rightarrow> Str v)"
  by (simp add: obj_get_def key_not_inherited split: option.splits)

text \<open>
  C5, as stated, fails: two \<open>fragment\<close> vnodes have the same \<open>type\<close>, are not text, have
  the same (undefined) \<open>tag\<close> and no \<open>key\<close>, so the test succeeds on them although they
  are neither two Text nodes nor two Elements.
\<close>

theorem sameVNode_fragments_counterexample:
  "sameVNode (Some (VFragment [])) (Some (VFragment []))
   \<and> vnode_type (VFragment []) \<noteq> TypeText \<and> vnode_type (VFragment []) \<noteq> TypeElement"
  by (simp add: sameVNode_def vnode_type_def vnode_tag_def vnode_key_def truthy_def)

text \<open>
  C5, amended: whenever the same-node test succeeds, both arguments are vnodes of the same
  kind: two Text nodes, two Fragment nodes, or two Element nodes with identical tag. Hence
  nodes of different kind or different tag, and a missing node, are never the same.
\<close>

theorem sameVNode_same_kind:
  assumes "sameVNode a b"
  shows "(\<exists>s t. a = Some (VText s) \<and> b = Some (VText t))
       \<or> (\<exists>cs ds. a = Some (VFragment cs) \<and> b = Some (VFragment ds))
       \<or> (\<exists>tag as cs bs ds. a = Some (VElement tag as cs) \<and> b = Some (VElement tag bs ds))"
proof -
  from assms obtain x y where ab: "a = Some x" "b = Some y"
    by (cases a; cases b) (simp_all add: sameVNode_def)
  from assms ab show ?thesis
    by (cases x; cases y)
       (simp_all add: sameVNode_def vnode_type_def vnode_tag_def split: if_splits)
qed

theorem sameVNode_same_kind_witness:
  "sameVNode (Some (VElement ''p'' [] [])) (Some (VElement ''p'' [(''id'', ''x'')] [VText ''a'']))
   \<and> (\<exists>tag as cs bs ds. Some (VElement ''p'' [] []) = Some (VElement tag as cs)
         \<and> Some (VElement ''p'' [(''id'', ''x'')] [VText ''a'']) = Some (VElement tag bs ds))"
proof -
  have h: "sameVNode (Some (VElement ''p'' [] []))
             (Some (VElement ''p'' [(''id'', ''x'')] [VText ''a'']))"
    by (simp add: sameVNode_def vnode_type_def vnode_tag_def vnode_key_def truthy_def obj_get_key)
  from sameVNode_same_kind [OF h] h show ?thesis by simp
qed

text \<open>
  C6, as stated, fails: the guard \<open>aKey || bKey\<close> tests truthiness, and the empty string is
  falsy. An element that carries \<open>key=""\<close> and one with the same tag that carries no
  \<open>key\<close> at all are the same node, although only one side carries the attribute.
\<close>

theorem sameVNode_empty_key_counterexample:
  "sameVNode (Some (VElement ''li'' [(''key'', [])] [])) (Some (VElement ''li'' [] []))
   \<and> map_of [(''key'', [])] ''key'' = Some ([] :: string)
   \<and> map_of ([] :: jsobj) ''key'' = None"
  by (simp add: sameVNode_def vnode_type_def vnode_tag_def vnode_key_def truthy_def obj_get_key)

text \<open>
  C6, amended: for two Element vnodes with identical tag, if either side carries a
  non-empty \<open>key\<close>, the test succeeds exactly when both sides carry it with equal values;
  if neither side carries a non-empty \<open>key\<close> (absent or the empty string), the test
  succeeds whatever the other attributes and the children are.
\<close>

theorem sameVNode_key:
  "(nonempty_key as \<or> nonempty_key bs \<longrightarrow>
      sameVNode (Some (VElement tag as cs)) (Some (VElement tag bs ds))
        = (map_of as ''key'' = map_of bs ''key''))
   \<and> (\<not> nonempty_key as \<and> \<not> nonempty_key bs \<longrightarrow>
      sameVNode (Some (VElement tag as cs)) (Some (VElement tag bs ds)))"
  by (auto simp add: sameVNode_def vnode_type_def vnode_tag_def vnode_key_def truthy_def
        obj_get_key nonempty_key_def Let_def split: option.splits)

theorem sameVNode_key_witness:
  "nonempty_key [(''key'', ''a'')] \<and>
   sameVNode (Some (VElement ''li'' [(''key'', ''a'')] []))
       (Some (VElement ''li'' [(''key'', ''b'')] []))
     = (map_of [(''key'', ''a'')] ''key'' = map_of [(''key'', ''b'')] ''key'') \<and>
   \<not> sameVNode (Some (VElement ''li'' [(''key'', ''a'')] []))
       (Some (VElement ''li'' [(''key'', ''b'')] [])) \<and>
   \<not> nonempty_key [(''class'', ''a'')] \<and> \<not> nonempty_key [] \<and>
   sameVNode (Some (VElement ''li'' [(''class'', ''a'')] [VText ''x'']))
       (Some (VElement ''li'' [] []))"
  using sameVNode_key [of "[(''key'', ''a'')]" "[(''key'', ''b'')]" "''li''" "[]" "[]"]
        sameVNode_key [of "[(''class'', ''a'')]" "[]" "''li''" "[VText ''x'']" "[]"]
  by (simp add: nonempty_key_def)

section \<open>Tree construction\<close>

lemma foldl_push_vnode:
  "foldl (\<lambda>acc child. push_vnode acc (f child)) acc cs = acc @ List.map_filter f cs"
  by (induction cs arbitrary: acc)
     (simp_all add: push_vnode_def split: option.splits)

lemma is_other_createVNode: "is_other n \<longleftrightarrow> createVNode n = None"
  by (cases n) (simp_all add: is_other_def)

lemma map_filter_createVNode_filter:
  "List.map_filter createVNode (filter (\<lambda>c. \<not> is_other c) cs) = List.map_filter createVNode cs"
  by (induction cs)
     (auto simp add: is_other_createVNode split: option.splits)

lemma length_map_filter_createVNode:
  "length (List.map_filter createVNode cs) = length (filter (\<lambda>c. \<not> is_other c) cs)"
  by (induction cs)
     (auto simp add: is_other_createVNode split: option.splits)

text \<open>
  C10: \<open>createVNode\<close> returns \<open>null\<close> on a node that is neither text nor element, and on
  no other node. The children of an element's vnode are the vnodes of its live children
  with those nodes left out, in order: there are as many as live children of the two
  kinds, and the vnode is the one of the element without these children. \<open>parseHTML\<close>
  drops them from the top level in the same way before it picks the single node or wraps
  the list in a fragment. Both functions only read the live tree.
\<close>

theorem createVNode_omits_other_nodes:
  "createVNode (DOther s) = None
   \<and> (createVNode n = None \<longleftrightarrow> is_other n)
   \<and> (\<exists>a. createVNode (DElement p cs)
            = Some (VElement (toLowerCase (tagName p)) a (List.map_filter createVNode cs)))
   \<and> length (List.map_filter createVNode cs) = length (filter (\<lambda>c. \<not> is_other c) cs)
   \<and> createVNode (DElement p cs) = createVNode (DElement p (filter (\<lambda>c. \<not> is_other c) cs))
   \<and> parseHTML E html =
       (let tops = List.map_filter createVNode (parse_fragment E ''TEMPLATE'' (trim html))
        in if length tops = 1 then hd tops else VFragment tops)"
  by (simp add: is_other_createVNode [symmetric] foldl_push_vnode map_filter_createVNode_filter
        length_map_filter_createVNode parseHTML_def)

section \<open>Attribute reconciliation on an element\<close>

lemma forEach_append:
  "forEach f (xs @ ys) s = (case forEach f xs s of Inl e \<Rightarrow> Inl e | Inr s' \<Rightarrow> forEach f ys s')"
  by (induction xs arbitrary: s) (simp_all split: sum.splits)

lemma forEach_invariant:
  assumes "forEach f xs s = Inr s'" and "P s"
    and "\<And>x t t'. x \<in> set xs \<Longrightarrow> P t \<Longrightarrow> f x t = Inr t' \<Longrightarrow> P t'"
  shows "P s'"
  using assms
proof (induction xs arbitrary: s)
  case Nil
  then show ?case by simp
next
  case (Cons x xs)
  from Cons.prems(1) obtain t where t: "f x s = Inr t" and rest: "forEach f xs t = Inr s'"
    by (auto split: sum.splits)
  have "P t" using Cons.prems(2,3) t by auto
  with Cons.IH [OF rest] Cons.prems(3) show ?case by auto
qed

lemma set_obj_entries: "set (obj_entries ob) = set ob"
  by (auto simp add: obj_entries_def)

lemma set_obj_keys: "set (obj_keys ob) = fst ` set ob"
  by (simp add: obj_keys_def set_obj_entries)

lemma distinct_obj_entries:
  assumes "distinct (map fst ob)"
  shows "distinct (map fst (obj_entries ob))"
proof -
  have d: "distinct ob" and i: "inj_on fst (set ob)"
    using assms by (simp_all add: distinct_map)
  have "distinct (obj_entries ob)"
    using d by (auto simp add: obj_entries_def)
  with i show ?thesis by (simp add: distinct_map set_obj_entries)
qed

lemma remove_old_element:
  "remove_old newAttrs k (Some (DElement p cs), log) =
     (if obj_in k newAttrs then Inr (Some (DElement p cs), log)
      else Inr (Some (DElement (p\<lparr>attributes := AList.delete k (attributes p)\<rparr>) cs),
                log @ [RemoveAttribute k]))"
  by (simp add: remove_old_def removeAttribute_def)

lemma write_new_element:
  "write_new E oldAttrs (k, v) (Some (DElement p cs), log) =
     (if Str v = obj_get oldAttrs k then Inr (Some (DElement p cs), log)
      else if k = ''value'' \<and> tagName p = ''INPUT'' then
        (if activeElement p then Inr (Some (DElement p cs), log)
         else Inr (Some (DElement (p\<lparr>value_prop := Some v\<rparr>) cs), log @ [SetValue v]))
      else if k = ''checked'' then
        Inr (Some (DElement (p\<lparr>checked_prop := Some (v = ''true'' \<or> v = ''checked'')\<rparr>) cs),
             log @ [SetChecked (v = ''true'' \<or> v = ''checked'')])
      else if valid_attribute_name E k then
        Inr (Some (DElement (p\<lparr>attributes := AList.update k v (attributes p)\<rparr>) cs),
             log @ [SetAttribute k v])
      else Inl InvalidCharacterError)"
  by (simp add: write_new_def get_tagName_def is_activeElement_def set_value_def
        set_checked_def setAttribute_def Let_def)

lemma write_new_element_cases:
  assumes "write_new E oldAttrs (k, v) (Some (DElement q cs), l) = Inr t'"
  obtains (same) "t' = (Some (DElement q cs), l)"
  | (val) "k = ''value''" "tagName q = ''INPUT''" "\<not> activeElement q"
      "t' = (Some (DElement (q\<lparr>value_prop := Some v\<rparr>) cs), l @ [SetValue v])"
  | (chk) "k = ''checked''" "Str v \<noteq> obj_get oldAttrs k"
      "t' = (Some (DElement (q\<lparr>checked_prop := Some (v = ''true'' \<or> v = ''checked'')\<rparr>) cs),
             l @ [SetChecked (v = ''true'' \<or> v = ''checked'')])"
  | (attr) "k \<noteq> ''checked''"
      "t' = (Some (DElement (q\<lparr>attributes := AList.update k v (attributes q)\<rparr>) cs),
             l @ [SetAttribute k v])"
  using assms unfolding write_new_element by (auto split: if_splits)

lemma remove_old_element_cases:
  assumes "remove_old newAttrs k (Some (DElement q cs), l) = Inr t'"
  obtains (same) "t' = (Some (DElement q cs), l)"
  | (del) "\<not> obj_in k newAttrs"
      "t' = (Some (DElement (q\<lparr>attributes := AList.delete k (attributes q)\<rparr>) cs),
             l @ [RemoveAttribute k])"
  using assms unfolding remove_old_element by (auto split: if_splits)

lemma updateAttributes_element_inv:
  assumes run: "updateAttributes E (Some (DElement p cs)) oldAttrs newAttrs = Inr (el', log)"
    and init: "X p []"
    and X_del: "\<And>q l k. X q l \<Longrightarrow> X (q\<lparr>attributes := AList.delete k (attributes q)\<rparr>) (l @ [RemoveAttribute k])"
    and X_val: "\<And>q l v. X q l \<Longrightarrow> tagName p = ''INPUT'' \<Longrightarrow> \<not> activeElement p
               \<Longrightarrow> X (q\<lparr>value_prop := Some v\<rparr>) (l @ [SetValue v])"
    and X_chk: "\<And>q l b. X q l \<Longrightarrow> X (q\<lparr>checked_prop := Some b\<rparr>) (l @ [SetChecked b])"
    and X_attr: "\<And>q l k v. X q l \<Longrightarrow> k \<noteq> ''checked''
               \<Longrightarrow> X (q\<lparr>attributes := AList.update k v (attributes q)\<rparr>) (l @ [SetAttribute k v])"
  shows "\<exists>p'. el' = Some (DElement p' cs) \<and> tagName p' = tagName p
           \<and> activeElement p' = activeElement p \<and> X p' log"
proof -
  let ?I = "\<lambda>st. \<exists>q. fst st = Some (DElement q cs) \<and> tagName q = tagName p
                \<and> activeElement q = activeElement p \<and> X q (snd st)"
  from run obtain st1 where
    one: "forEach (remove_old newAttrs) (obj_keys oldAttrs) (Some (DElement p cs), []) = Inr st1"
    and two: "forEach (write_new E oldAttrs) (obj_entries newAttrs) st1 = Inr (el', log)"
    by (auto simp add: updateAttributes_def split: sum.splits)
  have start: "?I (Some (DElement p cs), [])" using init by simp
  have mid: "?I st1"
  proof (rule forEach_invariant [where P = ?I, OF one start])
    fix x t t'
    assume "?I t" and step: "remove_old newAttrs x t = Inr t'"
    then obtain q l where t: "t = (Some (DElement q cs), l)"
      and q: "tagName q = tagName p" "activeElement q = activeElement p" "X q l"
      by (cases t) auto
    from step [unfolded t] show "?I t'"
    proof (cases rule: remove_old_element_cases)
      case same
      with q show ?thesis by simp
    next
      case del
      with q X_del [OF q(3)] show ?thesis by simp
    qed
  qed
  have "?I (el', log)"
  proof (rule forEach_invariant [where P = ?I, OF two mid])
    fix x t t'
    assume "?I t" and step: "write_new E oldAttrs x t = Inr t'"
    then obtain q l where t: "t = (Some (DElement q cs), l)"
      and q: "tagName q = tagName p" "activeElement q = activeElement p" "X q l"
      by (cases t) auto
    obtain k v where x: "x = (k, v)" by (cases x)
    from step [unfolded t x] show "?I t'"
    proof (cases rule: write_new_element_cases)
      case same
      with q show ?thesis by simp
    next
      case val
      with q X_val [OF q(3)] show ?thesis by simp
    next
      case chk
      with q X_chk [OF q(3)] show ?thesis by simp
    next
      case attr
      with q X_attr [OF q(3)] show ?thesis by simp
    qed
  qed
  then show ?thesis by simp
qed

declare patch.simps [simp del]

lemma updateAttributes_value:
  assumes "updateAttributes E (Some (DElement p cs)) oldAttrs newAttrs = Inr (el', log)"
  shows "\<exists>p'. el' = Some (DElement p' cs) \<and> tagName p' = tagName p
           \<and> activeElement p' = activeElement p
           \<and> ((activeElement p \<longrightarrow> value_prop p' = value_prop p)
               \<and> (\<forall>v. SetValue v \<in> set log \<longrightarrow> \<not> activeElement p \<and> tagName p = ''INPUT''))"
  by (rule updateAttributes_element_inv [OF assms,
        where X = "\<lambda>q l. (activeElement p \<longrightarrow> value_prop q = value_prop p)
                 \<and> (\<forall>v. SetValue v \<in> set l \<longrightarrow> \<not> activeElement p \<and> tagName p = ''INPUT'')"])
     simp_all

lemma patchChildren_loop_props_removals:
  "patchChildren_loop E (Some (DElement p cs)) i olds [] = Inr (parent', log)
   \<Longrightarrow> \<exists>cs'. parent' = Some (DElement p cs')"
proof (induction olds arbitrary: cs i log parent')
  case Nil
  then show ?case by auto
next
  case (Cons x xs)
  then show ?case
    by (auto simp add: childNodes_at_def splice_opt_def splice_def
          split: sum.splits option.splits if_splits)
qed

lemma patchChildren_loop_props_appends:
  "patchChildren_loop E (Some (DElement p cs)) i [] news = Inr (parent', log)
   \<Longrightarrow> \<exists>cs'. parent' = Some (DElement p cs')"
proof (induction news arbitrary: cs i log parent')
  case Nil
  then show ?case by auto
next
  case (Cons y ys)
  then show ?case
    by (auto simp add: childNodes_at_def appendChild_def split: sum.splits)
qed

lemma patchChildren_loop_props:
  "patchChildren_loop E (Some (DElement p cs)) i olds news = Inr (parent', log)
   \<Longrightarrow> \<exists>cs'. parent' = Some (DElement p cs')"
proof (induction olds news arbitrary: cs i log parent' rule: list_induct2')
  case 1
  then show ?case by auto
next
  case (2 x xs)
  then show ?case by (rule patchChildren_loop_props_removals)
next
  case (3 y ys)
  then show ?case by (rule patchChildren_loop_props_appends)
next
  case (4 x xs y ys)
  then show ?case
    by (auto simp add: childNodes_at_def splice_opt_def splice_def split: sum.splits)
qed

lemma patch_same_element:
  assumes run: "patch E (Some (DElement p cs)) oldVNode newVNode = Inr (nodes, log)"
    and same: "sameVNode oldVNode (Some newVNode)"
  shows "\<exists>p' cs'. nodes = [DElement p' cs'] \<and> tagName p' = tagName p
           \<and> activeElement p' = activeElement p
           \<and> (activeElement p \<longrightarrow> value_prop p' = value_prop p)"
proof -
  from same obtain old where old: "oldVNode = Some old"
    by (cases oldVNode) (simp_all add: sameVNode_def)
  show ?thesis
  proof (cases "\<exists>oldTag oldAttrs oldChildren newTag newAttrs newChildren.
                  old = VElement oldTag oldAttrs oldChildren
                  \<and> newVNode = VElement newTag newAttrs newChildren")
    case True
    then obtain oldTag oldAttrs oldChildren newTag newAttrs newChildren where
      shape: "old = VElement oldTag oldAttrs oldChildren"
             "newVNode = VElement newTag newAttrs newChildren" by blast
    from run same old shape obtain el1 log1 el2 log2 where
      ua: "updateAttributes E (Some (DElement p cs)) oldAttrs newAttrs = Inr (el1, log1)"
      and pc: "patchChildren_loop E el1 0 oldChildren newChildren = Inr (el2, log2)"
      and res: "nodes = slot el2"
      by (auto simp add: patch.simps split: sum.splits)
    from updateAttributes_value [OF ua] obtain p1 where
      p1: "el1 = Some (DElement p1 cs)" "tagName p1 = tagName p"
          "activeElement p1 = activeElement p"
          "activeElement p \<longrightarrow> value_prop p1 = value_prop p" by blast
    from patchChildren_loop_props [OF pc [unfolded p1(1)]] obtain cs' where
      "el2 = Some (DElement p1 cs')" by blast
    with res p1 show ?thesis by (simp add: slot_def)
  next
    case False
    with run same old show ?thesis
      by (cases old; cases newVNode)
         (auto simp add: patch.simps set_textContent_def slot_def sameVNode_def vnode_type_def
            split: if_splits sum.splits)
  qed
qed

section \<open>Focus preservation\<close>

lemma sample_entries_old:
  "obj_entries [(''type'', ''text''), (''value'', ''a'')] = [(''type'', ''text''), (''value'', ''a'')]"
  by (simp add: obj_entries_def array_index_def digit_val_def)

lemma sample_entries_new:
  "obj_entries [(''type'', ''text''), (''value'', ''b'')] = [(''type'', ''text''), (''value'', ''b'')]"
  by (simp add: obj_entries_def array_index_def digit_val_def)

lemma sample_update:
  "updateAttributes sample_platform (Some focused_input)
      [(''type'', ''text''), (''value'', ''a'')] [(''type'', ''text''), (''value'', ''b'')]
    = Inr (Some focused_input, [])"
  by (simp add: updateAttributes_def obj_keys_def sample_entries_old sample_entries_new
      remove_old_def obj_in_def focused_input_def write_new_element obj_get_def)


lemma sample_same:
  "sameVNode (Some (VElement ''input'' [(''type'', ''text''), (''value'', ''a'')] []))
             (Some (VElement ''input'' [(''type'', ''text''), (''value'', ''b'')] []))"
  by (simp add: sameVNode_def vnode_type_def vnode_tag_def vnode_key_def truthy_def obj_get_key)

lemma sample_patch:
  "patch sample_platform (Some focused_input)
      (Some (VElement ''input'' [(''type'', ''text''), (''value'', ''a'')] []))
      (VElement ''input'' [(''type'', ''text''), (''value'', ''b'')] [])
    = Inr ([focused_input], [])"
  by (simp add: patch.simps sample_same sample_update slot_def)

text \<open>
  C8: when attribute reconciliation runs on an element and returns, the element is still
  there, and if it holds the focus its live \<open>value\<close> is what it was, whatever the new
  \<open>value\<close> attribute says; a write of the live value happens only on an \<open>INPUT\<close>
  that does not hold the focus. The same holds for a whole \<open>patch\<close> of a focused element
  that is the same node in both trees: it stays in its place, focused, with its live value.
\<close>

theorem focused_input_value_kept:
  "(updateAttributes E (Some (DElement p cs)) oldAttrs newAttrs = Inr (el', log) \<longrightarrow>
      (\<exists>p'. el' = Some (DElement p' cs) \<and> (activeElement p \<longrightarrow> value_prop p' = value_prop p))
      \<and> (\<forall>v. SetValue v \<in> set log \<longrightarrow> \<not> activeElement p \<and> tagName p = ''INPUT''))
   \<and> (patch E (Some (DElement p cs)) oldVNode newVNode = Inr (nodes, plog)
        \<and> sameVNode oldVNode (Some newVNode) \<and> activeElement p \<longrightarrow>
      (\<exists>p' cs'. nodes = [DElement p' cs'] \<and> activeElement p' \<and> value_prop p' = value_prop p))"
proof (intro conjI impI)
  assume run: "updateAttributes E (Some (DElement p cs)) oldAttrs newAttrs = Inr (el', log)"
  from updateAttributes_value [OF run]
  show "\<exists>p'. el' = Some (DElement p' cs) \<and> (activeElement p \<longrightarrow> value_prop p' = value_prop p)"
    by blast
  from updateAttributes_value [OF run]
  show "\<forall>v. SetValue v \<in> set log \<longrightarrow> \<not> activeElement p \<and> tagName p = ''INPUT''"
    by blast
next
  assume h: "patch E (Some (DElement p cs)) oldVNode newVNode = Inr (nodes, plog)
        \<and> sameVNode oldVNode (Some newVNode) \<and> activeElement p"
  then have run: "patch E (Some (DElement p cs)) oldVNode newVNode = Inr (nodes, plog)"
    and same: "sameVNode oldVNode (Some newVNode)" and act: "activeElement p" by simp_all
  from patch_same_element [OF run same] act
  show "\<exists>p' cs'. nodes = [DElement p' cs'] \<and> activeElement p' \<and> value_prop p' = value_prop p"
    by auto
qed

theorem focused_input_value_kept_witness:
  "updateAttributes sample_platform (Some focused_input)
      [(''type'', ''text''), (''value'', ''a'')] [(''type'', ''text''), (''value'', ''b'')]
     = Inr (Some focused_input, [])
   \<and> patch sample_platform (Some focused_input)
      (Some (VElement ''input'' [(''type'', ''text''), (''value'', ''a'')] []))
      (VElement ''input'' [(''type'', ''text''), (''value'', ''b'')] [])
     = Inr ([focused_input], [])
   \<and> sameVNode (Some (VElement ''input'' [(''type'', ''text''), (''value'', ''a'')] []))
             (Some (VElement ''input'' [(''type'', ''text''), (''value'', ''b'')] []))
   \<and> (\<exists>p. focused_input = DElement p [] \<and> activeElement p \<and> tagName p = ''INPUT''
          \<and> value_prop p = Some ''typed'')"
  using focused_input_value_kept
    [where E = sample_platform
       and p = "\<lparr>tagName = ''INPUT'', attributes = [(''type'', ''text''), (''value'', ''a'')],
               value_prop = Some ''typed'', checked_prop = None, activeElement = True\<rparr>"
       and cs = "[]"
       and oldAttrs = "[(''type'', ''text''), (''value'', ''a'')]"
       and newAttrs = "[(''type'', ''text''), (''value'', ''b'')]"
       and el' = "Some focused_input" and log = "[]"
       and oldVNode = "Some (VElement ''input'' [(''type'', ''text''), (''value'', ''a'')] [])"
       and newVNode = "VElement ''input'' [(''type'', ''text''), (''value'', ''b'')] []"
       and nodes = "[focused_input]" and plog = "[]"]
    sample_update sample_patch sample_same
  by (simp add: focused_input_def)

section \<open>The checked attribute\<close>

lemma remove_loop_shape:
  "forEach (remove_old newAttrs) ks (Some (DElement p cs), l) = Inr st
   \<Longrightarrow> \<exists>q l'. st = (Some (DElement q cs), l')"
proof (induction ks arbitrary: p l)
  case Nil
  then show ?case by auto
next
  case (Cons k ks)
  then show ?case
    by (auto simp add: remove_old_element split: if_splits)
qed

lemma write_loop_inv:
  assumes run: "forEach (write_new E oldAttrs) es (Some (DElement q cs), l) = Inr (el', log)"
    and init: "X q l"
    and X_val: "\<And>q l v. X q l \<Longrightarrow> X (q\<lparr>value_prop := Some v\<rparr>) (l @ [SetValue v])"
    and X_chk: "\<And>q l v. (''checked'', v) \<in> set es \<Longrightarrow> X q l
               \<Longrightarrow> X (q\<lparr>checked_prop := Some (v = ''true'' \<or> v = ''checked'')\<rparr>)
                     (l @ [SetChecked (v = ''true'' \<or> v = ''checked'')])"
    and X_attr: "\<And>q l k v. X q l \<Longrightarrow> k \<noteq> ''checked''
               \<Longrightarrow> X (q\<lparr>attributes := AList.update k v (attributes q)\<rparr>) (l @ [SetAttribute k v])"
  shows "\<exists>p'. el' = Some (DElement p' cs) \<and> X p' log"
proof -
  let ?I = "\<lambda>st. \<exists>q. fst st = Some (DElement q cs) \<and> X q (snd st)"
  have start: "?I (Some (DElement q cs), l)" using init by simp
  have "?I (el', log)"
  proof (rule forEach_invariant [where P = ?I, OF run start])
    fix x t t'
    assume mem: "x \<in> set es" and "?I t" and step: "write_new E oldAttrs x t = Inr t'"
    then obtain r m where t: "t = (Some (DElement r cs), m)" and r: "X r m"
      by (cases t) auto
    obtain k v where x: "x = (k, v)" by (cases x)
    from step [unfolded t x] show "?I t'"
    proof (cases rule: write_new_element_cases)
      case same
      with r show ?thesis by simp
    next
      case val
      with X_val [OF r] show ?thesis by simp
    next
      case chk
      with X_chk [OF _ r, of v] mem x show ?thesis by simp
    next
      case attr
      with X_attr [OF r] show ?thesis by simp
    qed
  qed
  then show ?thesis by simp
qed

lemma updateAttributes_checked_attribute:
  assumes "updateAttributes E (Some (DElement p cs)) oldAttrs newAttrs = Inr (el', log)"
  shows "\<exists>p'. el' = Some (DElement p' cs) \<and> tagName p' = tagName p
           \<and> activeElement p' = activeElement p
           \<and> ((\<forall>w. SetAttribute ''checked'' w \<notin> set log)
               \<and> (map_of (attributes p') ''checked'' = None
                   \<or> map_of (attributes p') ''checked'' = map_of (attributes p) ''checked''))"
  by (rule updateAttributes_element_inv [OF assms,
        where X = "\<lambda>q l. (\<forall>w. SetAttribute ''checked'' w \<notin> set l)
                 \<and> (map_of (attributes q) ''checked'' = None
                     \<or> map_of (attributes q) ''checked'' = map_of (attributes p) ''checked'')"])
     (simp_all add: AList.delete_conv' AList.update_conv')

lemma updateAttributes_checked_written:
  assumes run: "updateAttributes E (Some (DElement p cs)) oldAttrs newAttrs = Inr (el', log)"
    and dist: "distinct (map fst newAttrs)"
    and mem: "map_of newAttrs ''checked'' = Some v"
    and change: "obj_get oldAttrs ''checked'' \<noteq> Str v"
  shows "\<exists>p'. el' = Some (DElement p' cs)
           \<and> checked_prop p' = Some (v = ''true'' \<or> v = ''checked'')
           \<and> SetChecked (v = ''true'' \<or> v = ''checked'') \<in> set log"
proof -
  let ?b = "v = ''true'' \<or> v = ''checked''"
  from run obtain st1 where
    one: "forEach (remove_old newAttrs) (obj_keys oldAttrs) (Some (DElement p cs), []) = Inr st1"
    and two: "forEach (write_new E oldAttrs) (obj_entries newAttrs) st1 = Inr (el', log)"
    by (auto simp add: updateAttributes_def split: sum.splits)
  from remove_loop_shape [OF one] obtain q1 l1 where st1: "st1 = (Some (DElement q1 cs), l1)"
    by blast
  have "(''checked'', v) \<in> set (obj_entries newAttrs)"
    using mem by (simp add: set_obj_entries map_of_SomeD)
  then obtain pre post where split: "obj_entries newAttrs = pre @ (''checked'', v) # post"
    by (auto dest: split_list)
  have "distinct (map fst (pre @ (''checked'', v) # post))"
    using distinct_obj_entries [OF dist] split by simp
  then have post: "\<And>w. (''checked'', w) \<notin> set post"
    by (auto simp add: image_iff)
  from two [unfolded split st1 forEach_append] obtain st2 where
    a: "forEach (write_new E oldAttrs) pre (Some (DElement q1 cs), l1) = Inr st2"
    and b: "forEach (write_new E oldAttrs) ((''checked'', v) # post) st2 = Inr (el', log)"
    by (auto split: sum.splits)
  obtain el2 l2 where st2: "st2 = (el2, l2)" by (cases st2)
  from write_loop_inv [OF a [unfolded st2], where X = "\<lambda>q l. True"]
  obtain q2 where q2: "el2 = Some (DElement q2 cs)" by auto
  from b [unfolded st2 q2] change
  have c: "forEach (write_new E oldAttrs) post
             (Some (DElement (q2\<lparr>checked_prop := Some ?b\<rparr>) cs), l2 @ [SetChecked ?b])
           = Inr (el', log)"
    by (simp add: write_new_element split: if_splits)
  show ?thesis
    by (rule write_loop_inv [OF c,
          where X = "\<lambda>q l. checked_prop q = Some ?b \<and> SetChecked ?b \<in> set l"])
       (simp_all add: post)
qed

lemma create_attrs_no_checked:
  assumes run: "forEach (create_attr E) es p0 = Inr p"
    and init: "map_of (attributes p0) ''checked'' = None"
  shows "map_of (attributes p) ''checked'' = None"
proof (rule forEach_invariant [where P = "\<lambda>q. map_of (attributes q) ''checked'' = None", OF run init])
  fix x t t'
  assume "map_of (attributes t) ''checked'' = None" and "create_attr E x t = Inr t'"
  then show "map_of (attributes t') ''checked'' = None"
    by (auto simp add: create_attr_def AList.update_conv' split: if_splits)
qed

lemma create_attrs_checked:
  assumes run: "forEach (create_attr E) es p0 = Inr p"
    and dist: "distinct (map fst es)"
    and mem: "(''checked'', v) \<in> set es"
  shows "checked_prop p = Some (v = ''true'' \<or> v = ''checked'')"
proof -
  let ?b = "v = ''true'' \<or> v = ''checked''"
  from mem obtain pre post where split: "es = pre @ (''checked'', v) # post"
    by (auto dest: split_list)
  with dist have post: "\<And>x. x \<in> set post \<Longrightarrow> fst x \<noteq> ''checked''"
    by (auto simp add: image_iff)
  from run [unfolded split forEach_append] obtain p1 where
    b: "forEach (create_attr E) ((''checked'', v) # post) p1 = Inr p"
    by (auto split: sum.splits)
  then have c: "forEach (create_attr E) post (p1\<lparr>checked_prop := Some ?b\<rparr>) = Inr p"
    by (simp add: create_attr_def)
  show ?thesis
  proof (rule forEach_invariant [where P = "\<lambda>q. checked_prop q = Some ?b", OF c])
    show "checked_prop (p1\<lparr>checked_prop := Some ?b\<rparr>) = Some ?b" by simp
  next
    fix x t t'
    assume "x \<in> set post" and "checked_prop t = Some ?b" and "create_attr E x t = Inr t'"
    with post [of x] show "checked_prop t' = Some ?b"
      by (auto simp add: create_attr_def split: if_splits)
  qed
qed

lemma createElementFromVNode_checked:
  assumes run: "createElementFromVNode E (VElement tag attrs vs) = Inr ns"
  shows "\<exists>q ds. ns = [DElement q ds] \<and> map_of (attributes q) ''checked'' = None
           \<and> (distinct (map fst attrs) \<and> map_of attrs ''checked'' = Some v
                \<longrightarrow> checked_prop q = Some (v = ''true'' \<or> v = ''checked''))"
proof -
  from run obtain p0 q ds where
    mk: "createElement E tag = Inr p0"
    and at: "forEach (create_attr E) (obj_entries attrs) p0 = Inr q"
    and ns: "ns = [DElement q ds]"
    by (auto split: sum.splits)
  from mk have "map_of (attributes p0) ''checked'' = None"
    by (auto simp add: createElement_def split: if_splits)
  from create_attrs_no_checked [OF at this]
  have no: "map_of (attributes q) ''checked'' = None" .
  have "checked_prop q = Some (v = ''true'' \<or> v = ''checked'')"
    if "distinct (map fst attrs)" and "map_of attrs ''checked'' = Some v"
    using create_attrs_checked [OF at distinct_obj_entries [OF that(1)], of v] that(2)
    by (simp add: set_obj_entries map_of_SomeD)
  with ns no show ?thesis by blast
qed

lemma sample_checkbox_entries:
  "obj_entries [(''type'', ''checkbox'')] = [(''type'', ''checkbox'')]"
  "obj_entries [(''type'', ''checkbox''), (''checked'', v)]
     = [(''type'', ''checkbox''), (''checked'', v)]"
  by (simp_all add: obj_entries_def array_index_def digit_val_def)

lemma sample_checkbox_update:
  "updateAttributes sample_platform (Some (element ''INPUT'' [(''type'', ''checkbox'')] []))
      [(''type'', ''checkbox'')] [(''type'', ''checkbox''), (''checked'', ''checked'')]
    = Inr (Some (DElement \<lparr>tagName = ''INPUT'', attributes = [(''type'', ''checkbox'')],
                          value_prop = None, checked_prop = Some True,
                          activeElement = False\<rparr> []),
           [SetChecked True])"
  by (simp add: updateAttributes_def obj_keys_def sample_checkbox_entries remove_old_def
        obj_in_def element_def write_new_element obj_get_def object_prototype_names_def)

lemma sample_checkbox_create:
  "createElementFromVNode sample_platform
      (VElement ''input'' [(''type'', ''checkbox''), (''checked'', [])] [])
    = Inr [DElement \<lparr>tagName = ''INPUT'', attributes = [(''type'', ''checkbox'')],
                     value_prop = None, checked_prop = Some False,
                     activeElement = False\<rparr> []]"
  by (simp add: createElement_def sample_platform_def toUpperCase_def upper_char_def
        sample_checkbox_entries create_attr_def)

text \<open>
  C9: attribute reconciliation on an element never calls \<open>setAttribute\<close> with the name
  \<open>checked\<close>, so the element's \<open>checked\<close> attribute is what it was, or removed. When
  the new map holds \<open>checked\<close> with a value that differs from the old one, the live
  boolean property is set: to true for the strings \<open>true\<close> and \<open>checked\<close>, to false for
  any other string. An element built from a vnode gets the property in the same way and
  no \<open>checked\<close> attribute.
\<close>

theorem checked_applied_as_property:
  "(updateAttributes E (Some (DElement p cs)) oldAttrs newAttrs = Inr (el', log) \<longrightarrow>
      (\<forall>w. SetAttribute ''checked'' w \<notin> set log)
      \<and> (\<exists>p'. el' = Some (DElement p' cs)
           \<and> (map_of (attributes p') ''checked'' = None
               \<or> map_of (attributes p') ''checked'' = map_of (attributes p) ''checked'')
           \<and> (distinct (map fst newAttrs) \<and> map_of newAttrs ''checked'' = Some v
                 \<and> obj_get oldAttrs ''checked'' \<noteq> Str v
               \<longrightarrow> checked_prop p' = Some (v = ''true'' \<or> v = ''checked'')
                   \<and> SetChecked (v = ''true'' \<or> v = ''checked'') \<in> set log)))
   \<and> (createElementFromVNode E (VElement tag attrs vs) = Inr ns \<longrightarrow>
      (\<exists>q ds. ns = [DElement q ds] \<and> map_of (attributes q) ''checked'' = None
         \<and> (distinct (map fst attrs) \<and> map_of attrs ''checked'' = Some u
              \<longrightarrow> checked_prop q = Some (u = ''true'' \<or> u = ''checked''))))"
proof (intro conjI impI)
  assume run: "updateAttributes E (Some (DElement p cs)) oldAttrs newAttrs = Inr (el', log)"
  from updateAttributes_checked_attribute [OF run]
  show "\<forall>w. SetAttribute ''checked'' w \<notin> set log" by blast
  from updateAttributes_checked_attribute [OF run] obtain p' where
    p': "el' = Some (DElement p' cs)"
        "map_of (attributes p') ''checked'' = None
         \<or> map_of (attributes p') ''checked'' = map_of (attributes p) ''checked''"
    by blast
  have "checked_prop p' = Some (v = ''true'' \<or> v = ''checked'')
        \<and> SetChecked (v = ''true'' \<or> v = ''checked'') \<in> set log"
    if "distinct (map fst newAttrs) \<and> map_of newAttrs ''checked'' = Some v
        \<and> obj_get oldAttrs ''checked'' \<noteq> Str v"
    using updateAttributes_checked_written [OF run, of v] that p'(1) by auto
  with p' show "\<exists>p'. el' = Some (DElement p' cs)
           \<and> (map_of (attributes p') ''checked'' = None
               \<or> map_of (attributes p') ''checked'' = map_of (attributes p) ''checked'')
           \<and> (distinct (map fst newAttrs) \<and> map_of newAttrs ''checked'' = Some v
                 \<and> obj_get oldAttrs ''checked'' \<noteq> Str v
               \<longrightarrow> checked_prop p' = Some (v = ''true'' \<or> v = ''checked'')
                   \<and> SetChecked (v = ''true'' \<or> v = ''checked'') \<in> set log)"
    by blast
next
  assume "createElementFromVNode E (VElement tag attrs vs) = Inr ns"
  from createElementFromVNode_checked [OF this]
  show "\<exists>q ds. ns = [DElement q ds] \<and> map_of (attributes q) ''checked'' = None
         \<and> (distinct (map fst attrs) \<and> map_of attrs ''checked'' = Some u
              \<longrightarrow> checked_prop q = Some (u = ''true'' \<or> u = ''checked''))" .
qed


theorem checked_applied_as_property_witness:
  "updateAttributes sample_platform (Some (element ''INPUT'' [(''type'', ''checkbox'')] []))
      [(''type'', ''checkbox'')] [(''type'', ''checkbox''), (''checked'', ''checked'')]
    = Inr (Some (DElement \<lparr>tagName = ''INPUT'', attributes = [(''type'', ''checkbox'')],
                          value_prop = None, checked_prop = Some True,
                          activeElement = False\<rparr> []),
           [SetChecked True])
   \<and> distinct (map fst [(''type'', ''checkbox''), (''checked'', ''checked'')])
   \<and> map_of [(''type'', ''checkbox''), (''checked'', ''checked'')] ''checked'' = Some ''checked''
   \<and> obj_get [(''type'', ''checkbox'')] ''checked'' \<noteq> Str ''checked''
   \<and> createElementFromVNode sample_platform
        (VElement ''input'' [(''type'', ''checkbox''), (''checked'', [])] [])
      = Inr [DElement \<lparr>tagName = ''INPUT'', attributes = [(''type'', ''checkbox'')],
                       value_prop = None, checked_prop = Some False,
                       activeElement = False\<rparr> []]
   \<and> distinct (map fst [(''type'', ''checkbox''), (''checked'', [])])
   \<and> map_of [(''type'', ''checkbox''), (''checked'', [])] ''checked'' = Some []"
  using checked_applied_as_property
    [where E = sample_platform
       and p = "\<lparr>tagName = ''INPUT'', attributes = [(''type'', ''checkbox'')],
               value_prop = None, checked_prop = None, activeElement = False\<rparr>"
       and cs = "[]"
       and oldAttrs = "[(''type'', ''checkbox'')]"
       and newAttrs = "[(''type'', ''checkbox''), (''checked'', ''checked'')]"
       and el' = "Some (DElement \<lparr>tagName = ''INPUT'', attributes = [(''type'', ''checkbox'')],
                          value_prop = None, checked_prop = Some True,
                          activeElement = False\<rparr> [])"
       and log = "[SetChecked True]"
       and v = "''checked''"
       and tag = "''input''"
       and attrs = "[(''type'', ''checkbox''), (''checked'', [])]"
       and vs = "[]"
       and ns = "[DElement \<lparr>tagName = ''INPUT'', attributes = [(''type'', ''checkbox'')],
                       value_prop = None, checked_prop = Some False,
                       activeElement = False\<rparr> []]"
       and u = "[]"]
    sample_checkbox_update sample_checkbox_create
  by (simp add: obj_get_def object_prototype_names_def)

section \<open>The entry point never raises\<close>

lemma sample_diff_try_raises:
  "diff_try sample_platform
     (element ''DIV'' [(''id'', ''app'')]
        [element ''DIV'' [] [DOther ''c'', element ''P'' [(''class'', ''a'')] [DText ''x'']]])
     (Some ''<div><!--c--><p class=a>x</p></div>'') ''<div><p>x</p></div>'' = Inl TypeError"
  by code_simp

lemma sample_fallback:
  "set_innerHTML sample_platform
     (element ''DIV'' [(''id'', ''app'')]
        [element ''DIV'' [] [DOther ''c'', element ''P'' [(''class'', ''a'')] [DText ''x'']]])
     ''<div><p>x</p></div>''
   = element ''DIV'' [(''id'', ''app'')] [element ''DIV'' [] [element ''P'' [] [DText ''x'']]]"
  by code_simp

text \<open>
  C2: \<open>diff\<close> always returns. When the body of its \<open>try\<close> block raises, whatever
  the exception, the result is the container with its content set from the new markup,
  that is, with the child list the parser gives for that markup in the container.
\<close>

theorem diff_never_raises:
  "(\<exists>r. diff E container oldHTML newHTML = Inr r)
   \<and> (\<forall>e. diff_try E container oldHTML newHTML = Inl e \<longrightarrow>
          diff E container oldHTML newHTML
            = Inr (set_innerHTML E container newHTML, [SetInnerHTML newHTML]))
   \<and> (\<forall>p cs. childNodes (set_innerHTML E (DElement p cs) newHTML)
                = parse_fragment E (tagName p) newHTML)"
  by (simp add: diff_def set_innerHTML_def childNodes_def split: sum.splits)

theorem diff_never_raises_witness:
  "diff_try sample_platform
     (element ''DIV'' [(''id'', ''app'')]
        [element ''DIV'' [] [DOther ''c'', element ''P'' [(''class'', ''a'')] [DText ''x'']]])
     (Some ''<div><!--c--><p class=a>x</p></div>'') ''<div><p>x</p></div>'' = Inl TypeError
   \<and> diff sample_platform
     (element ''DIV'' [(''id'', ''app'')]
        [element ''DIV'' [] [DOther ''c'', element ''P'' [(''class'', ''a'')] [DText ''x'']]])
     (Some ''<div><!--c--><p class=a>x</p></div>'') ''<div><p>x</p></div>''
     = Inr (element ''DIV'' [(''id'', ''app'')]
              [element ''DIV'' [] [element ''P'' [] [DText ''x'']]],
            [SetInnerHTML ''<div><p>x</p></div>''])"
  using diff_never_raises
    [where E = sample_platform
       and container = "element ''DIV'' [(''id'', ''app'')]
        [element ''DIV'' [] [DOther ''c'', element ''P'' [(''class'', ''a'')] [DText ''x'']]]"
       and oldHTML = "Some ''<div><!--c--><p class=a>x</p></div>''"
       and newHTML = "''<div><p>x</p></div>''"]
    sample_diff_try_raises sample_fallback
  by simp

section \<open>Inputs on which the code departs from the specification\<close>

text \<open>
  C4: the loop of \<open>patchChildren\<close> reads \<open>parent.childNodes[i]\<close> from the live list, which
  has already lost a child when it removes the second surplus one. With two old children
  and no new one, the child at index 0 is removed, index 1 is then past the end, and the
  second child stays: the parent is left with one child, the new sequence has none.
\<close>

theorem patchChildren_leaves_surplus_child:
  "patchChildren sample_platform
     (Some (element ''UL'' [] [element ''LI'' [] [DText ''a''], element ''LI'' [] [DText ''b'']]))
     [VElement ''li'' [] [VText ''a''], VElement ''li'' [] [VText ''b'']] []
   = Inr (Some (element ''UL'' [] [element ''LI'' [] [DText ''b'']]), [RemoveChild 0])"
  by code_simp

text \<open>
  The same loop in a whole render: the container shows a list of two items, the next
  markup is the empty list. After \<open>diff\<close> the live list still holds the second item,
  while the new markup parses to a list without items. No exception is raised, so the
  fallback does not repair it.
\<close>

theorem diff_shrinking_list_not_converged:
  "diff sample_platform (element ''DIV'' [(''id'', ''app'')] []) None
      ''<ul><li>a</li><li>b</li></ul>''
     = Inr (element ''DIV'' [(''id'', ''app'')]
              [element ''UL'' []
                 [element ''LI'' [] [DText ''a''], element ''LI'' [] [DText ''b'']]],
            [SetInnerHTML ''<ul><li>a</li><li>b</li></ul>''])
   \<and> diff sample_platform
       (element ''DIV'' [(''id'', ''app'')]
          [element ''UL'' []
             [element ''LI'' [] [DText ''a''], element ''LI'' [] [DText ''b'']]])
       (Some ''<ul><li>a</li><li>b</li></ul>'') ''<ul></ul>''
     = Inr (element ''DIV'' [(''id'', ''app'')]
              [element ''UL'' [] [element ''LI'' [] [DText ''b'']]],
            [RemoveChild 0])
   \<and> parse_fragment sample_platform ''DIV'' ''<ul></ul>'' = [element ''UL'' [] []]"
  by code_simp

text \<open>
  C3: a render of markup with two top-level nodes, then \<open>diff\<close> with that same markup as
  previous and as new. \<open>diff\<close> compares the vnode of the first live child, an element,
  with the fragment of the new markup, finds them different and replaces the first child
  with all the nodes of the fragment: one replacement is made, and the container is left
  with three children.
\<close>

theorem diff_same_markup_mutates:
  "diff sample_platform (element ''DIV'' [(''id'', ''app'')] []) None ''<p>a</p><p>b</p>''
     = Inr (element ''DIV'' [(''id'', ''app'')]
              [element ''P'' [] [DText ''a''], element ''P'' [] [DText ''b'']],
            [SetInnerHTML ''<p>a</p><p>b</p>''])
   \<and> diff sample_platform
       (element ''DIV'' [(''id'', ''app'')]
          [element ''P'' [] [DText ''a''], element ''P'' [] [DText ''b'']])
       (Some ''<p>a</p><p>b</p>'') ''<p>a</p><p>b</p>''
     = Inr (element ''DIV'' [(''id'', ''app'')]
              [element ''P'' [] [DText ''a''], element ''P'' [] [DText ''b''],
               element ''P'' [] [DText ''b'']],
            [ReplaceChild])"
  by code_simp

text \<open>
  C7: \<open>key in newAttrs\<close> is also true for a name that every object inherits. An element
  with the attribute \<open>constructor\<close>, reconciled against a new attribute map without it,
  keeps the attribute: no \<open>removeAttribute\<close> call is made.
\<close>

theorem updateAttributes_keeps_inherited_name:
  "updateAttributes sample_platform
     (Some (element ''DIV'' [(''constructor'', ''x'')] [])) [(''constructor'', ''x'')] []
   = Inr (Some (element ''DIV'' [(''constructor'', ''x'')] []), [])
   \<and> map_of ([] :: jsobj) ''constructor'' = None"
  by code_simp

section \<open>Convergence on plain trees\<close>












lemma obj_get_Str: "obj_get ob k = Str v \<longleftrightarrow> map_of ob k = Some v"
  by (auto simp add: obj_get_def split: option.splits)



























section \<open>Rendering the same markup again\<close>

text \<open>
  Patching a subtree of text nodes and elements against its own vnode changes nothing
  and writes nothing. So \<open>diff\<close> with the same markup as previous and as new makes no
  mutation when that markup parses to the vnode of the container's first child: a single
  top-level node, with nothing that the parser keeps and the vnode drops before it or
  inside it. The markup with two top-level nodes above is outside this case.
\<close>

lemma forEach_unchanged:
  "(\<And>x. x \<in> set xs \<Longrightarrow> f x s = Inr s) \<Longrightarrow> forEach f xs s = Inr s"
  by (induction xs) simp_all

lemma distinct_obj_set: "distinct (map fst ob) \<Longrightarrow> distinct (map fst (obj_set ob k v))"
  by (simp add: obj_set_def AList.distinct_update)

lemma distinct_foldl_obj_set:
  "distinct (map fst acc)
   \<Longrightarrow> distinct (map fst (foldl (\<lambda>ob a. obj_set ob (fst a) (snd a)) acc xs))"
  by (induction xs arbitrary: acc) (simp_all add: distinct_obj_set)

lemma updateAttributes_same:
  assumes "distinct (map fst a)"
  shows "updateAttributes E el a a = Inr (el, [])"
proof -
  have one: "forEach (remove_old a) (obj_keys a) (el, []) = Inr (el, [])"
  proof (rule forEach_unchanged)
    fix k
    assume "k \<in> set (obj_keys a)"
    then have "obj_in k a"
      by (auto simp add: set_obj_keys obj_in_def map_of_eq_None_iff)
    then show "remove_old a k (el, []) = Inr (el, [])"
      by (simp add: remove_old_def)
  qed
  have two: "forEach (write_new E a) (obj_entries a) (el, []) = Inr (el, [])"
  proof (rule forEach_unchanged)
    fix e
    assume "e \<in> set (obj_entries a)"
    then have "map_of a (fst e) = Some (snd e)"
      using assms by (simp add: set_obj_entries)
    then have "obj_get a (fst e) = Str (snd e)" by (simp add: obj_get_Str)
    then show "write_new E a e (el, []) = Inr (el, [])"
      by (simp add: write_new_def)
  qed
  from one two show ?thesis by (simp add: updateAttributes_def)
qed

lemma sameVNode_refl: "sameVNode (Some v) (Some v)"
  by (simp add: sameVNode_def)

lemma no_other_createVNode: "no_other n \<Longrightarrow> \<exists>v. createVNode n = Some v"
  by (cases n) simp_all

lemma loop_same:
  assumes "\<And>c ov. c \<in> set rest \<Longrightarrow> no_other c \<Longrightarrow> createVNode c = Some ov
             \<Longrightarrow> patch E (Some c) (Some ov) ov = Inr ([c], [])"
    and "list_all no_other rest"
  shows "patchChildren_loop E (Some (DElement q (done @ rest))) (length done)
           (List.map_filter createVNode rest) (List.map_filter createVNode rest)
         = Inr (Some (DElement q (done @ rest)), [])"
  using assms
proof (induction rest arbitrary: "done")
  case Nil
  then show ?case by simp
next
  case (Cons c cs)
  from Cons.prems(2) have nc: "no_other c" and ncs: "list_all no_other cs" by simp_all
  from no_other_createVNode [OF nc] obtain oc where oc: "createVNode c = Some oc" by blast
  have one: "patch E (Some c) (Some oc) oc = Inr ([c], [])"
    using Cons.prems(1) [of c oc] nc oc by simp
  have at: "childNodes_at (Some (DElement q (done @ c # cs))) (length done) = Inr (Some c)"
    by (simp add: childNodes_at_def childNodes_def)
  have sp: "splice_opt (Some (DElement q (done @ c # cs))) (length done) [c]
            = Some (DElement q ((done @ [c]) @ cs))"
    by (simp add: splice_opt_def splice_def)
  have "patchChildren_loop E (Some (DElement q ((done @ [c]) @ cs))) (length (done @ [c]))
           (List.map_filter createVNode cs) (List.map_filter createVNode cs)
         = Inr (Some (DElement q ((done @ [c]) @ cs)), [])"
  proof (rule Cons.IH [OF _ ncs])
    fix x ov
    assume "x \<in> set cs" and "no_other x" and "createVNode x = Some ov"
    then show "patch E (Some x) (Some ov) ov = Inr ([x], [])"
      using Cons.prems(1) [of x ov] by simp
  qed
  with sp show ?case
    by (simp add: oc at one)
qed

lemma patch_same_tree:
  "no_other el \<Longrightarrow> createVNode el = Some ov \<Longrightarrow> patch E (Some el) (Some ov) ov = Inr ([el], [])"
proof (induction el arbitrary: ov)
  case (DText s)
  then show ?case by (auto simp add: patch.simps sameVNode_refl slot_def)
next
  case (DOther s)
  then show ?case by simp
next
  case (DElement p cs)
  let ?a = "foldl (\<lambda>ob a. obj_set ob (fst a) (snd a)) [] (attributes p)"
  let ?vs = "List.map_filter createVNode cs"
  from DElement.prems(2) have ov: "ov = VElement (toLowerCase (tagName p)) ?a ?vs"
    by (simp add: foldl_push_vnode)
  have "distinct (map fst ?a)" by (rule distinct_foldl_obj_set) simp
  then have ua: "updateAttributes E (Some (DElement p cs)) ?a ?a = Inr (Some (DElement p cs), [])"
    by (rule updateAttributes_same)
  from DElement.prems(1) have ncs: "list_all no_other cs" by simp
  have "patchChildren_loop E (Some (DElement p ([] @ cs))) (length ([] :: dnode list)) ?vs ?vs
        = Inr (Some (DElement p ([] @ cs)), [])"
    by (rule loop_same [OF DElement.IH ncs])
  then have pc: "patchChildren_loop E (Some (DElement p cs)) 0 ?vs ?vs
                 = Inr (Some (DElement p cs), [])" by simp
  show ?case
    unfolding ov by (simp add: patch.simps sameVNode_refl ua pc slot_def)
qed

lemma diff_same_markup_single_root:
  assumes "h \<noteq> []" and "no_other first" and "createVNode first = Some (parseHTML E h)"
  shows "diff E (DElement p (first # rest)) (Some h) h = Inr (DElement p (first # rest), [])"
proof -
  from patch_same_tree [OF assms(2,3)]
  have "patch E (Some first) (Some (parseHTML E h)) (parseHTML E h) = Inr ([first], [])" .
  with assms(1,3) show ?thesis
    by (simp add: diff_def diff_try_def childNodes_def splice_def Let_def)
qed

end
